theory Spec2Isabelle
  imports Complex_Main
begin

section \<open>Text primitives of the host language\<close>

text \<open>
  The tool reads its matrices from text. A text is a \<open>string\<close>; each \<open>char\<close> stands for one
  code point below 256. The three string methods the parser calls (\<open>strip\<close>,
  \<open>splitlines\<close>, \<open>split\<close>) are written out with the whitespace and line-boundary
  characters the language defines in that range.
\<close>

definition is_space :: "char \<Rightarrow> bool" where
  "is_space c \<longleftrightarrow>
     c \<in> set [CHR 0x09, CHR 0x0A, CHR 0x0B, CHR 0x0C, CHR 0x0D, CHR 0x1C, CHR 0x1D,
               CHR 0x1E, CHR 0x1F, CHR 0x20, CHR 0x85, CHR 0xA0]"

definition is_linebreak :: "char \<Rightarrow> bool" where
  "is_linebreak c \<longleftrightarrow>
     c \<in> set [CHR 0x0A, CHR 0x0B, CHR 0x0C, CHR 0x0D, CHR 0x1C, CHR 0x1D, CHR 0x1E, CHR 0x85]"

definition strip :: "string \<Rightarrow> string" where
  "strip s = rev (dropWhile is_space (rev (dropWhile is_space s)))"

text \<open>
  \<open>splitlines\<close>: a line ends at a line boundary, which is dropped; carriage return
  followed by line feed is one boundary; a text that ends in a boundary has no empty last line.
\<close>

fun splitlines :: "string \<Rightarrow> string list" where
  "splitlines [] = []"
| "splitlines (c # cs) =
     (if c = CHR 0x0D \<and> (case cs of [] \<Rightarrow> False | d # _ \<Rightarrow> d = CHR 0x0A) then splitlines cs
      else if is_linebreak c then [] # splitlines cs
      else (case splitlines cs of [] \<Rightarrow> [[c]] | l # ls \<Rightarrow> (c # l) # ls))"

text \<open>\<open>split\<close> without a separator: the maximal runs of non-whitespace characters.\<close>

fun split :: "string \<Rightarrow> string list" where
  "split [] = []"
| "split (c # cs) =
     (if is_space c then split cs
      else (case cs of
              [] \<Rightarrow> [[c]]
            | d # _ \<Rightarrow> if is_space d then [c] # split cs
                       else (case split cs of [] \<Rightarrow> [[c]] | w # ws \<Rightarrow> (c # w) # ws)))"

definition replace :: "char \<Rightarrow> char \<Rightarrow> string \<Rightarrow> string" where
  "replace old new s = map (\<lambda>c. if c = old then new else c) s"

fun join :: "string \<Rightarrow> string list \<Rightarrow> string" where
  "join sep [] = []"
| "join sep [x] = x"
| "join sep (x # y # ys) = x @ sep @ join sep (y # ys)"


section \<open>Errors and arrays\<close>

text \<open>
  Every failure of the tool is a \<open>ValueError\<close> with a message. The constructors name the
  messages: \<open>EmptyInput\<close> is "Input is empty", \<open>NonNumericToken ln\<close> is "Non-numeric value
  found in line: 'ln'", \<open>RaggedRows\<close> is "Rows have inconsistent number of columns",
  \<open>MissingOperand\<close> is "Both matrices A and B are required for ..." or "Matrix A is empty",
  \<open>ShapeMismatch\<close> is "Matrices must have the same shape for ...", \<open>InnerDimMismatch\<close> is
  "Inner dimensions must match for multiplication" and \<open>NotSquare\<close> is "Determinant requires
  a square matrix".
\<close>

datatype error =
    EmptyInput
  | NonNumericToken string
  | RaggedRows
  | MissingOperand
  | ShapeMismatch
  | InnerDimMismatch
  | NotSquare

text \<open>
  A two-dimensional array: its shape and its rows. The shape is kept beside the rows because
  an array may have rows of length zero, or no rows and a positive column count.
\<close>

record 'a ndarray =
  shape0 :: nat
  shape1 :: nat
  cells :: "'a list list"

definition shape :: "'a ndarray \<Rightarrow> nat \<times> nat" where
  "shape m = (shape0 m, shape1 m)"

definition well_formed :: "'a ndarray \<Rightarrow> bool" where
  "well_formed m \<longleftrightarrow> length (cells m) = shape0 m \<and> list_all (\<lambda>r. length r = shape1 m) (cells m)"

text \<open>\<open>np.array\<close> on a non-empty list of rows of one length.\<close>

definition np_array :: "'a list list \<Rightarrow> 'a ndarray" where
  "np_array rows =
     \<lparr>shape0 = length rows, shape1 = (case rows of [] \<Rightarrow> 0 | r # _ \<Rightarrow> length r), cells = rows\<rparr>"


section \<open>The parser\<close>

text \<open>
  \<open>float\<close> is the host language's reader of one token; it is a parameter \<open>pyfloat\<close> of the
  parser, \<open>None\<close> where it raises. The element type is whatever it returns.
\<close>

definition parts :: "string \<Rightarrow> string list" where
  "parts line = filter (\<lambda>p. p \<noteq> []) (split (replace CHR '','' CHR '' '' line))"

fun parse_rows :: "(string \<Rightarrow> 'a option) \<Rightarrow> string list \<Rightarrow> error + 'a list list" where
  "parse_rows pyfloat [] = Inr []"
| "parse_rows pyfloat (line # lns) =
     (case those (map pyfloat (parts line)) of
        None \<Rightarrow> Inl (NonNumericToken line)
      | Some row \<Rightarrow>
          (case parse_rows pyfloat lns of
             Inl e \<Rightarrow> Inl e
           | Inr rows \<Rightarrow> Inr (row # rows)))"

definition nonblank_lines :: "string \<Rightarrow> string list" where
  "nonblank_lines text = filter (\<lambda>l. l \<noteq> []) (map strip (splitlines (strip text)))"

definition parse_matrix :: "(string \<Rightarrow> 'a option) \<Rightarrow> string \<Rightarrow> error + 'a ndarray" where
  "parse_matrix pyfloat text =
     (let lines = nonblank_lines text in
      if lines = [] then Inl EmptyInput
      else (case parse_rows pyfloat lines of
              Inl e \<Rightarrow> Inl e
            | Inr rows \<Rightarrow>
                if length (remdups (map length rows)) \<noteq> 1 then Inl RaggedRows
                else Inr (np_array rows)))"

text \<open>
  \<open>matrix_to_text\<close>: values of a row joined by one space, rows joined by a line feed. \<open>str\<close> of
  a number is the host language's; it is the parameter \<open>pystr\<close>.
\<close>

definition matrix_to_text :: "('a \<Rightarrow> string) \<Rightarrow> 'a ndarray \<Rightarrow> string" where
  "matrix_to_text pystr mat =
     join [CHR 0x0A] (map (\<lambda>r. join '' '' (map pystr r)) (cells mat))"


section \<open>Array arithmetic of the numerical library\<close>

text \<open>
  The tool hands all arithmetic to the numerical library: \<open>a + b\<close>, \<open>a - b\<close>, \<open>a.dot(b)\<close>,
  \<open>mat.T\<close> and \<open>np.linalg.det\<close>. The library is not part of the repository. The first
  four are written here as the textbook operations on the element type, cell by cell; on
  floating-point elements the library rounds, which these definitions leave out.
  \<open>np.linalg.det\<close> factorizes the array in floating point and returns an approximation of
  the determinant; it is a parameter \<open>linalg_det\<close> of the operation that calls it.
\<close>

definition np_add :: "'a::plus ndarray \<Rightarrow> 'a ndarray \<Rightarrow> 'a ndarray" where
  "np_add a b =
     \<lparr>shape0 = shape0 a, shape1 = shape1 a,
      cells = map (\<lambda>i. map (\<lambda>j. cells a ! i ! j + cells b ! i ! j) [0..<shape1 a]) [0..<shape0 a]\<rparr>"

definition np_sub :: "'a::minus ndarray \<Rightarrow> 'a ndarray \<Rightarrow> 'a ndarray" where
  "np_sub a b =
     \<lparr>shape0 = shape0 a, shape1 = shape1 a,
      cells = map (\<lambda>i. map (\<lambda>j. cells a ! i ! j - cells b ! i ! j) [0..<shape1 a]) [0..<shape0 a]\<rparr>"

definition dot :: "'a::semiring_0 ndarray \<Rightarrow> 'a ndarray \<Rightarrow> 'a ndarray" where
  "dot a b =
     \<lparr>shape0 = shape0 a, shape1 = shape1 b,
      cells = map (\<lambda>i. map (\<lambda>j. sum_list (map (\<lambda>k. cells a ! i ! k * cells b ! k ! j) [0..<shape1 a]))
                          [0..<shape1 b]) [0..<shape0 a]\<rparr>"

definition T :: "'a ndarray \<Rightarrow> 'a ndarray" where
  "T mat =
     \<lparr>shape0 = shape1 mat, shape1 = shape0 mat,
      cells = map (\<lambda>j. map (\<lambda>i. cells mat ! i ! j) [0..<shape0 mat]) [0..<shape1 mat]\<rparr>"


section \<open>The application\<close>

datatype 'a result = Matrix "'a ndarray" | Scalar 'a

text \<open>
  What the operations read and write: the two text areas, the selector of the unary
  operations (\<open>''A''\<close> or \<open>''B''\<close>), the last result and the clipboard. The widgets that only
  display (result table, status bar, message box) are left out.
\<close>

record 'a app =
  a_txt :: string
  b_txt :: string
  single_choice :: string
  current_result :: "'a result option"
  clipboard :: "string option"

fun optional_parse :: "(string \<Rightarrow> 'a option) \<Rightarrow> string \<Rightarrow> error + 'a ndarray option" where
  "optional_parse pyfloat s =
     (if strip s \<noteq> [] then
        (case parse_matrix pyfloat s of Inl e \<Rightarrow> Inl e | Inr m \<Rightarrow> Inr (Some m))
      else Inr None)"

definition get_matrices ::
  "(string \<Rightarrow> 'a option) \<Rightarrow> 'a app \<Rightarrow> error + ('a ndarray option \<times> 'a ndarray option)" where
  "get_matrices pyfloat st =
     (case optional_parse pyfloat (a_txt st) of
        Inl e \<Rightarrow> Inl e
      | Inr a \<Rightarrow>
          (case optional_parse pyfloat (b_txt st) of
             Inl e \<Rightarrow> Inl e
           | Inr b \<Rightarrow> Inr (a, b)))"

text \<open>
  Each operation below is the body of its handler up to the value it shows: \<open>Inr\<close> is the
  value passed to the result display, \<open>Inl\<close> the error passed to the error handler.
\<close>

definition add :: "(string \<Rightarrow> 'a::plus option) \<Rightarrow> 'a app \<Rightarrow> error + 'a result" where
  "add pyfloat st =
     (case get_matrices pyfloat st of
        Inl e \<Rightarrow> Inl e
      | Inr (None, _) \<Rightarrow> Inl MissingOperand
      | Inr (Some a, None) \<Rightarrow> Inl MissingOperand
      | Inr (Some a, Some b) \<Rightarrow>
          if shape a \<noteq> shape b then Inl ShapeMismatch else Inr (Matrix (np_add a b)))"

definition sub :: "(string \<Rightarrow> 'a::minus option) \<Rightarrow> 'a app \<Rightarrow> error + 'a result" where
  "sub pyfloat st =
     (case get_matrices pyfloat st of
        Inl e \<Rightarrow> Inl e
      | Inr (None, _) \<Rightarrow> Inl MissingOperand
      | Inr (Some a, None) \<Rightarrow> Inl MissingOperand
      | Inr (Some a, Some b) \<Rightarrow>
          if shape a \<noteq> shape b then Inl ShapeMismatch else Inr (Matrix (np_sub a b)))"

definition mul :: "(string \<Rightarrow> 'a::semiring_0 option) \<Rightarrow> 'a app \<Rightarrow> error + 'a result" where
  "mul pyfloat st =
     (case get_matrices pyfloat st of
        Inl e \<Rightarrow> Inl e
      | Inr (None, _) \<Rightarrow> Inl MissingOperand
      | Inr (Some a, None) \<Rightarrow> Inl MissingOperand
      | Inr (Some a, Some b) \<Rightarrow>
          if shape1 a \<noteq> shape0 b then Inl InnerDimMismatch else Inr (Matrix (dot a b)))"

definition selected :: "string \<Rightarrow> 'a ndarray option \<times> 'a ndarray option \<Rightarrow> 'a ndarray option" where
  "selected choice ab = (if choice = ''A'' then fst ab else snd ab)"

definition transpose_op :: "(string \<Rightarrow> 'a option) \<Rightarrow> 'a app \<Rightarrow> error + 'a result" where
  "transpose_op pyfloat st =
     (case get_matrices pyfloat st of
        Inl e \<Rightarrow> Inl e
      | Inr ab \<Rightarrow>
          (case selected (single_choice st) ab of
             None \<Rightarrow> Inl MissingOperand
           | Some mat \<Rightarrow> Inr (Matrix (T mat))))"

definition determinant ::
  "('a ndarray \<Rightarrow> 'a) \<Rightarrow> (string \<Rightarrow> 'a option) \<Rightarrow> 'a app \<Rightarrow> error + 'a result" where
  "determinant linalg_det pyfloat st =
     (case get_matrices pyfloat st of
        Inl e \<Rightarrow> Inl e
      | Inr ab \<Rightarrow>
          (case selected (single_choice st) ab of
             None \<Rightarrow> Inl MissingOperand
           | Some mat \<Rightarrow>
               if shape0 mat \<noteq> shape1 mat then Inl NotSquare
               else Inr (Scalar (linalg_det mat))))"

text \<open>
  \<open>copy_result\<close>: nothing is copied when there is no result; an array is copied as
  \<open>matrix_to_text\<close> writes it, a scalar as \<open>str\<close> writes it.
\<close>

definition copy_result :: "('a \<Rightarrow> string) \<Rightarrow> 'a app \<Rightarrow> 'a app" where
  "copy_result pystr st =
     (case current_result st of
        None \<Rightarrow> st
      | Some (Matrix m) \<Rightarrow> st\<lparr>clipboard := Some (matrix_to_text pystr m)\<rparr>
      | Some (Scalar v) \<Rightarrow> st\<lparr>clipboard := Some (pystr v)\<rparr>)"

text \<open>
  The application with the two text areas filled in and the selector set: no result yet,
  nothing copied.
\<close>

definition app_with :: "string \<Rightarrow> string \<Rightarrow> string \<Rightarrow> 'a app" where
  "app_with a b choice =
     \<lparr>a_txt = a, b_txt = b, single_choice = choice, current_result = None, clipboard = None\<rparr>"


section \<open>Number formatting\<close>

text \<open>
  \<open>_fmt\<close> is written over the real numbers. The built-ins it calls are written out from the
  language reference: \<open>round\<close> to an integer rounds half to even, \<open>str\<close> of an integer is
  its decimal digits, and the format \<open>.6g\<close> rounds to six significant digits, chooses fixed
  notation for a decimal exponent from -4 to 5 and exponent notation otherwise, and drops
  trailing zeros and a trailing point.
\<close>

definition py_round :: "real \<Rightarrow> int" where
  "py_round x =
     (let f = \<lfloor>x\<rfloor>; d = x - of_int f in
      if d < 1 / 2 then f else if 1 / 2 < d then f + 1 else if even f then f else f + 1)"

definition digit_char :: "nat \<Rightarrow> char" where
  "digit_char n = ''0123456789'' ! n"

function str_nat :: "nat \<Rightarrow> string" where
  "str_nat n = (if n < 10 then [digit_char n] else str_nat (n div 10) @ [digit_char (n mod 10)])"
  by pat_completeness auto
termination
  by (relation "measure id") auto

declare str_nat.simps [simp del]

definition str_int :: "int \<Rightarrow> string" where
  "str_int i = (if i < 0 then ''-'' @ str_nat (nat (- i)) else str_nat (nat i))"

function exp10_up :: "real \<Rightarrow> nat" where
  "exp10_up y = (if y < 10 then 0 else Suc (exp10_up (y / 10)))"
  by pat_completeness auto
termination
proof (relation "measure (\<lambda>y. nat \<lfloor>y\<rfloor>)")
  show "wf (measure (\<lambda>y::real. nat \<lfloor>y\<rfloor>))" by simp
next
  fix y :: real
  assume "\<not> y < 10"
  then have "y / 10 \<le> y - 9" by simp
  then have "\<lfloor>y / 10\<rfloor> \<le> \<lfloor>y - 9\<rfloor>" by (rule floor_mono)
  moreover have "\<lfloor>y - 9\<rfloor> = \<lfloor>y\<rfloor> - 9" by linarith
  moreover have "10 \<le> \<lfloor>y\<rfloor>" using \<open>\<not> y < 10\<close> by linarith
  ultimately show "(y / 10, y) \<in> measure (\<lambda>y. nat \<lfloor>y\<rfloor>)" by simp
qed

function exp10_down :: "real \<Rightarrow> nat" where
  "exp10_down y = (if y \<le> 0 \<or> 1 \<le> y then 0 else Suc (exp10_down (y * 10)))"
  by pat_completeness auto
termination
proof (relation "measure (\<lambda>y. nat \<lceil>1 / y\<rceil>)")
  show "wf (measure (\<lambda>y::real. nat \<lceil>1 / y\<rceil>))" by simp
next
  have tenth: "nat \<lceil>z / 10\<rceil> < nat \<lceil>z\<rceil>" if "1 < z" for z :: real
  proof -
    have c2: "2 \<le> \<lceil>z\<rceil>" using that by linarith
    have "z / 10 \<le> of_int (\<lceil>z\<rceil> - 1)"
    proof (cases "z \<le> 10")
      case True
      then have "z / 10 \<le> 1" by simp
      also have "(1::real) \<le> of_int (\<lceil>z\<rceil> - 1)" using c2 by linarith
      finally show ?thesis .
    next
      case False
      then have "z / 10 \<le> z - 1" by simp
      also have "z - 1 \<le> of_int (\<lceil>z\<rceil> - 1)" by linarith
      finally show ?thesis .
    qed
    then have "\<lceil>z / 10\<rceil> \<le> \<lceil>z\<rceil> - 1" by (simp only: ceiling_le_iff)
    then show ?thesis using c2 by linarith
  qed
  fix y :: real
  assume "\<not> (y \<le> 0 \<or> 1 \<le> y)"
  then have "1 < 1 / y" by simp
  then have "nat \<lceil>1 / y / 10\<rceil> < nat \<lceil>1 / y\<rceil>" by (rule tenth)
  moreover have "1 / (y * 10) = 1 / y / 10" by simp
  ultimately show "(y * 10, y) \<in> measure (\<lambda>y. nat \<lceil>1 / y\<rceil>)"
    by (simp only: in_measure)
qed

declare exp10_up.simps [simp del] exp10_down.simps [simp del]

text \<open>The decimal exponent \<open>e\<close> of a positive number: \<open>10 ^ e \<le> y < 10 ^ (e + 1)\<close>.\<close>

definition exp10 :: "real \<Rightarrow> int" where
  "exp10 y = (if 1 \<le> y then int (exp10_up y) else - int (exp10_down y))"

definition frac_digits :: "string \<Rightarrow> string" where
  "frac_digits f =
     (let g = rev (dropWhile (\<lambda>c. c = CHR ''0'') (rev f)) in if g = [] then [] else ''.'' @ g)"

definition fmt_6g :: "real \<Rightarrow> string" where
  "fmt_6g x =
     (if x = 0 then ''0''
      else
        let e0 = exp10 \<bar>x\<bar>;
            m0 = py_round (\<bar>x\<bar> * 10 powi (5 - e0));
            e = (if m0 = 1000000 then e0 + 1 else e0);
            ds = (if m0 = 1000000 then ''100000'' else str_nat (nat m0));
            body =
              (if - 4 \<le> e \<and> e < 6 then
                 (if 0 \<le> e then take (nat e + 1) ds @ frac_digits (drop (nat e + 1) ds)
                  else ''0'' @ frac_digits (replicate (nat (- e - 1)) CHR ''0'' @ ds))
               else
                 take 1 ds @ frac_digits (drop 1 ds) @ ''e'' @ (if e < 0 then ''-'' else ''+'')
                   @ (let a = str_nat (nat \<bar>e\<bar>) in if length a < 2 then ''0'' @ a else a))
        in (if x < 0 then ''-'' else []) @ body)"

definition fmt :: "real \<Rightarrow> string" where
  "fmt x =
     (if \<bar>x - of_int (py_round x)\<bar> < 1 / 10 ^ 9 then str_int (py_round x) else fmt_6g x)"

text \<open>
  \<open>str\<close> of a floating-point number that holds a whole number below \<open>10 ^ 16\<close> in magnitude
  is the digits of that number followed by \<open>.0\<close>. The text of any other value depends on
  its binary representation and is left to the parameter \<open>other\<close>.
\<close>

definition float_str :: "(real \<Rightarrow> string) \<Rightarrow> real \<Rightarrow> string" where
  "float_str other x =
     (if x = of_int \<lfloor>x\<rfloor> \<and> \<bar>x\<bar> < 10 ^ 16 then str_int \<lfloor>x\<rfloor> @ ''.0'' else other x)"

text \<open>
  The examples copy whole numbers only; for them the parameter of \<open>float_str\<close> is never
  asked, and \<open>no_repr\<close> fills its place.
\<close>

definition no_repr :: "real \<Rightarrow> string" where
  "no_repr x = []"


text \<open>
  The one value of \<open>np.linalg.det\<close> that the library's documentation prints: for
  \<open>[[1, 2], [3, 4]]\<close> it returns the floating-point number \<open>- (2 + 2 ^ -51)\<close>, printed as
  \<open>-2.0000000000000004\<close>. Every other array is left to the parameter \<open>other\<close>; \<open>no_det\<close>
  fills its place where it is never asked.
\<close>

definition linalg_det_doc :: "(real ndarray \<Rightarrow> real) \<Rightarrow> real ndarray \<Rightarrow> real" where
  "linalg_det_doc other m =
     (if cells m = [[1, 2], [3, 4]] then - (2 + 1 / 2 ^ 51) else other m)"

definition no_det :: "real ndarray \<Rightarrow> real" where
  "no_det m = 0"

text \<open>
  A reader of plain decimal literals (an optional minus sign, digits, an optional point and
  more digits), giving the exact value. It stands for \<open>float\<close> in the examples; \<open>float\<close>
  accepts these literals, and more.
\<close>

fun position :: "char \<Rightarrow> string \<Rightarrow> nat \<Rightarrow> nat option" where
  "position c [] n = None"
| "position c (d # ds) n = (if c = d then Some n else position c ds (Suc n))"

definition digit_val :: "char \<Rightarrow> nat option" where
  "digit_val c = position c ''0123456789'' 0"

fun read_digits :: "nat \<Rightarrow> string \<Rightarrow> nat option" where
  "read_digits acc [] = Some acc"
| "read_digits acc (c # cs) =
     (case digit_val c of None \<Rightarrow> None | Some d \<Rightarrow> read_digits (10 * acc + d) cs)"

definition read_decimal :: "string \<Rightarrow> real option" where
  "read_decimal s =
     (let neg = (case s of [] \<Rightarrow> False | c # _ \<Rightarrow> c = CHR ''-'');
          body = (if neg then tl s else s);
          ip = takeWhile (\<lambda>c. c \<noteq> CHR ''.'') body;
          rest = dropWhile (\<lambda>c. c \<noteq> CHR ''.'') body;
          fp = (case rest of [] \<Rightarrow> [] | _ # f \<Rightarrow> f)
      in if ip = [] \<or> (rest \<noteq> [] \<and> fp = []) then None
         else (case (read_digits 0 ip, read_digits 0 fp) of
                 (Some i, Some f) \<Rightarrow>
                   Some ((if neg then - 1 else 1) * (real i + real f / 10 ^ length fp))
               | _ \<Rightarrow> None))"


section \<open>Notions of the specification\<close>

text \<open>
  The words the specification uses for a line of the input: its token count, whether one
  of its tokens is rejected by the number reader, and the numbers its tokens stand for.
\<close>

definition token_count :: "string \<Rightarrow> nat" where
  "token_count line = length (parts line)"

definition has_bad_token :: "(string \<Rightarrow> 'a option) \<Rightarrow> string \<Rightarrow> bool" where
  "has_bad_token pyfloat line \<longleftrightarrow> \<not> list_all (\<lambda>p. pyfloat p \<noteq> None) (parts line)"

definition values_of :: "(string \<Rightarrow> 'a option) \<Rightarrow> string \<Rightarrow> 'a list" where
  "values_of pyfloat line = map (\<lambda>p. the (pyfloat p)) (parts line)"


text \<open>A token that the tokenizer leaves whole: not empty, no whitespace, no comma.\<close>

definition plain_token :: "string \<Rightarrow> bool" where
  "plain_token w \<longleftrightarrow> w \<noteq> [] \<and> list_all (\<lambda>c. \<not> is_space c \<and> c \<noteq> CHR '','') w"







lemmas text_eval =
  is_space_def is_linebreak_def strip_def replace_def parts_def nonblank_lines_def
  token_count_def has_bad_token_def values_of_def read_decimal_def digit_val_def Let_def


section \<open>The parser: outcomes\<close>

lemma those_map_None: "those (map f ps) = None \<longleftrightarrow> \<not> list_all (\<lambda>p. f p \<noteq> None) ps"
  by (induction ps) (auto split: option.splits)

lemma those_map_Some: "list_all (\<lambda>p. f p \<noteq> None) ps \<Longrightarrow> those (map f ps) = Some (map (\<lambda>p. the (f p)) ps)"
  by (induction ps) (auto split: option.splits)

lemma parse_rows_find:
  "parse_rows pf ls =
     (case find (has_bad_token pf) ls of
        Some l \<Rightarrow> Inl (NonNumericToken l)
      | None \<Rightarrow> Inr (map (values_of pf) ls))"
proof (induction ls)
  case Nil
  show ?case by simp
next
  case (Cons l ls)
  show ?case
  proof (cases "has_bad_token pf l")
    case True
    then have "those (map pf (parts l)) = None"
      by (simp add: those_map_None has_bad_token_def)
    then show ?thesis using True by simp
  next
    case False
    then have "those (map pf (parts l)) = Some (values_of pf l)"
      by (simp add: those_map_Some has_bad_token_def values_of_def)
    then show ?thesis using False Cons.IH by (simp split: option.splits)
  qed
qed

lemma remdups_single:
  assumes "xs \<noteq> []"
  shows "length (remdups xs) = 1 \<longleftrightarrow> (\<forall>x\<in>set xs. x = hd xs)"
proof -
  have "length (remdups xs) = card (set xs)" by (simp add: length_remdups_card_conv)
  moreover have "card (set xs) = 1 \<longleftrightarrow> (\<forall>x\<in>set xs. x = hd xs)"
  proof
    assume "card (set xs) = 1"
    then obtain y where y: "set xs = {y}" by (auto simp: card_1_singleton_iff)
    have "hd xs \<in> set xs" using assms by simp
    then have "hd xs = y" by (simp only: y singleton_iff)
    then show "\<forall>x\<in>set xs. x = hd xs" by (simp only: y ball_simps simp_thms)
  next
    assume a: "\<forall>x\<in>set xs. x = hd xs"
    have h: "hd xs \<in> set xs" using assms by simp
    from a have "set xs \<subseteq> {hd xs}" by blast
    moreover have "{hd xs} \<subseteq> set xs" using h by blast
    ultimately have "set xs = {hd xs}" by (rule subset_antisym)
    then show "card (set xs) = 1" by simp
  qed
  ultimately show ?thesis by simp
qed

lemma ragged_iff:
  assumes "ls \<noteq> []"
  shows "length (remdups (map length (map (values_of pf) ls))) \<noteq> 1 \<longleftrightarrow>
         (\<exists>l\<in>set ls. token_count l \<noteq> token_count (hd ls))"
proof -
  have len: "map length (map (values_of pf) ls) = map token_count ls"
    by (simp add: values_of_def token_count_def)
  have hd: "hd (map token_count ls) = token_count (hd ls)"
    using assms by (simp add: hd_map)
  have ne: "map token_count ls \<noteq> []" using assms by simp
  show ?thesis
    unfolding len remdups_single [OF ne] hd by auto
qed

lemma np_array_rows:
  assumes "ls \<noteq> []"
  shows "np_array (map (values_of pf) ls) =
         \<lparr>shape0 = length ls, shape1 = token_count (hd ls), cells = map (values_of pf) ls\<rparr>"
  using assms by (cases ls) (simp_all add: np_array_def values_of_def token_count_def)

lemma parse_matrix_alt:
  "parse_matrix pf text =
     (if nonblank_lines text = [] then Inl EmptyInput
      else (case find (has_bad_token pf) (nonblank_lines text) of
              Some l \<Rightarrow> Inl (NonNumericToken l)
            | None \<Rightarrow>
                if length (remdups (map length (map (values_of pf) (nonblank_lines text)))) \<noteq> 1
                then Inl RaggedRows
                else Inr (np_array (map (values_of pf) (nonblank_lines text)))))"
  unfolding parse_matrix_def Let_def parse_rows_find
  by (cases "find (has_bad_token pf) (nonblank_lines text)") (simp_all only: option.case sum.case)

lemma parse_matrix_char:
  "parse_matrix pf text =
     (if nonblank_lines text = [] then Inl EmptyInput
      else (case find (has_bad_token pf) (nonblank_lines text) of
              Some l \<Rightarrow> Inl (NonNumericToken l)
            | None \<Rightarrow>
                if \<exists>l\<in>set (nonblank_lines text). token_count l \<noteq> token_count (hd (nonblank_lines text))
                then Inl RaggedRows
                else Inr \<lparr>shape0 = length (nonblank_lines text),
                          shape1 = token_count (hd (nonblank_lines text)),
                          cells = map (values_of pf) (nonblank_lines text)\<rparr>))"
proof (cases "nonblank_lines text = []")
  case True
  then show ?thesis by (simp only: parse_matrix_alt simp_thms if_True)
next
  case ne: False
  have r: "(length (remdups (map length (map (values_of pf) (nonblank_lines text)))) \<noteq> 1) =
       (\<exists>l\<in>set (nonblank_lines text). token_count l \<noteq> token_count (hd (nonblank_lines text)))"
    by (rule ragged_iff [OF ne])
  show ?thesis
    unfolding parse_matrix_alt r np_array_rows [OF ne] ..
qed

text \<open>
  Claim C1, as the code has it. For every input text and every number reader: the parser
  fails with \<open>EmptyInput\<close> when no line is left after the lines are stripped and the blank
  ones dropped; otherwise it fails with \<open>NonNumericToken\<close> when a line has a token the
  reader rejects, and the error carries the first such line with its surrounding whitespace
  stripped and its commas in place; otherwise it fails with \<open>RaggedRows\<close> when two lines
  differ in token count; otherwise it returns the array whose rows are the numbers of the
  tokens of each non-blank line, a comma counting as a space.
\<close>

theorem parse_matrix_outcome:
  "parse_matrix pf text =
     (if nonblank_lines text = [] then Inl EmptyInput
      else (case find (has_bad_token pf) (nonblank_lines text) of
              Some l \<Rightarrow> Inl (NonNumericToken l)
            | None \<Rightarrow>
                if \<exists>l\<in>set (nonblank_lines text). token_count l \<noteq> token_count (hd (nonblank_lines text))
                then Inl RaggedRows
                else Inr \<lparr>shape0 = length (nonblank_lines text),
                          shape1 = token_count (hd (nonblank_lines text)),
                          cells = map (values_of pf) (nonblank_lines text)\<rparr>))"
  by (rule parse_matrix_char)

theorem parse_matrix_outcome_witness:
  "parse_matrix read_decimal ''1,2\<newline>\<newline> 3  4 \<newline>'' =
     Inr \<lparr>shape0 = 2, shape1 = 2, cells = [[1, 2], [3, 4]]\<rparr>
   \<and> parse_matrix read_decimal ''   \<newline>  \<newline>'' = Inl EmptyInput
   \<and> parse_matrix read_decimal ''1 two\<newline>3 4'' = Inl (NonNumericToken ''1 two'')
   \<and> parse_matrix read_decimal ''1 2\<newline>3'' = Inl RaggedRows"
  using parse_matrix_outcome [of read_decimal "''1,2\<newline>\<newline> 3  4 \<newline>''"]
    parse_matrix_outcome [of read_decimal "''   \<newline>  \<newline>''"]
    parse_matrix_outcome [of read_decimal "''1 two\<newline>3 4''"]
    parse_matrix_outcome [of read_decimal "''1 2\<newline>3''"]
  by (simp add: text_eval)

text \<open>
  The claim as written says the error carries the line's original text. The line
  \<open>'' 1 x''\<close> is reported as \<open>''1 x''\<close>, without its leading space.
\<close>

theorem parse_matrix_error_line_counterexample:
  "splitlines '' 1 x'' = ['' 1 x'']
   \<and> parse_matrix read_decimal '' 1 x'' = Inl (NonNumericToken ''1 x'')
   \<and> parse_matrix read_decimal '' 1 x'' \<noteq> Inl (NonNumericToken '' 1 x'')"
  by (simp add: parse_matrix_def text_eval)

section \<open>The parser: shape of the result\<close>

lemma parse_matrix_empty:
  assumes "nonblank_lines text = []"
  shows "parse_matrix pf text = Inl EmptyInput"
  by (simp only: parse_matrix_char assms simp_thms if_True)

lemma parse_matrix_bad:
  assumes "nonblank_lines text \<noteq> []" "find (has_bad_token pf) (nonblank_lines text) = Some l"
  shows "parse_matrix pf text = Inl (NonNumericToken l)"
  by (simp only: parse_matrix_char assms if_False option.case)

lemma parse_matrix_ragged:
  assumes "nonblank_lines text \<noteq> []" "find (has_bad_token pf) (nonblank_lines text) = None"
    and "\<exists>l\<in>set (nonblank_lines text). token_count l \<noteq> token_count (hd (nonblank_lines text))"
  shows "parse_matrix pf text = Inl RaggedRows"
  by (simp only: parse_matrix_char assms if_False if_True option.case)

lemma parse_matrix_ok:
  assumes "nonblank_lines text \<noteq> []" "find (has_bad_token pf) (nonblank_lines text) = None"
    and "\<not> (\<exists>l\<in>set (nonblank_lines text). token_count l \<noteq> token_count (hd (nonblank_lines text)))"
  shows "parse_matrix pf text =
           Inr \<lparr>shape0 = length (nonblank_lines text),
                shape1 = token_count (hd (nonblank_lines text)),
                cells = map (values_of pf) (nonblank_lines text)\<rparr>"
  by (simp only: parse_matrix_char assms if_False option.case)

lemma parse_matrix_Inr:
  assumes "parse_matrix pf text = Inr g"
  shows "nonblank_lines text \<noteq> []"
    and "\<forall>l\<in>set (nonblank_lines text). token_count l = token_count (hd (nonblank_lines text))"
    and "g = \<lparr>shape0 = length (nonblank_lines text),
               shape1 = token_count (hd (nonblank_lines text)),
               cells = map (values_of pf) (nonblank_lines text)\<rparr>"
proof -
  let ?ls = "nonblank_lines text"
  let ?rag = "\<exists>l\<in>set ?ls. token_count l \<noteq> token_count (hd ?ls)"
  show ne: "?ls \<noteq> []"
  proof
    assume "?ls = []"
    from parse_matrix_empty [OF this, of pf] assms show False by simp
  qed
  have nb: "find (has_bad_token pf) ?ls = None"
  proof (cases "find (has_bad_token pf) ?ls")
    case None
    then show ?thesis .
  next
    case (Some l)
    from parse_matrix_bad [OF ne Some] assms show ?thesis by simp
  qed
  have nr: "\<not> ?rag"
  proof
    assume "?rag"
    from parse_matrix_ragged [OF ne nb this] assms show False by simp
  qed
  then show "\<forall>l\<in>set ?ls. token_count l = token_count (hd ?ls)" by blast
  from parse_matrix_ok [OF ne nb nr] assms
  show "g = \<lparr>shape0 = length ?ls, shape1 = token_count (hd ?ls), cells = map (values_of pf) ?ls\<rparr>"
    by simp
qed

lemma parse_matrix_well_formed:
  assumes "parse_matrix pf text = Inr g"
  shows "well_formed g" and "1 \<le> shape0 g"
proof -
  note p = parse_matrix_Inr [OF assms]
  have len: "\<forall>r\<in>set (map (values_of pf) (nonblank_lines text)).
               length r = token_count (hd (nonblank_lines text))"
    using p(2) by (simp add: values_of_def token_count_def)
  show "well_formed g"
    using len by (simp add: p(3) well_formed_def list_all_iff)
  show "1 \<le> shape0 g"
    using p(1) by (cases "nonblank_lines text") (simp_all add: p(3))
qed

lemma parse_matrix_ragged_rejected:
  assumes "l \<in> set (nonblank_lines text)" "l' \<in> set (nonblank_lines text)"
    and "token_count l \<noteq> token_count l'"
  shows "isl (parse_matrix pf text)"
proof (cases "parse_matrix pf text")
  case (Inl e)
  then show ?thesis by simp
next
  case (Inr g)
  from parse_matrix_Inr(2) [OF Inr] assms show ?thesis by metis
qed

text \<open>
  Claim C2, as the code has it. Whenever the parser succeeds, the array is rectangular and
  has at least one row: it has one row per non-blank line, every row has the length the
  array's shape gives, and that length is the token count of every line, so no row is padded
  or cut. The common length may be zero. A text in which two non-blank lines differ in token
  count is rejected.
\<close>

theorem parse_matrix_rectangular:
  "(parse_matrix pf text = Inr g \<longrightarrow>
      well_formed g \<and> 1 \<le> shape0 g
      \<and> shape0 g = length (nonblank_lines text)
      \<and> (\<forall>l\<in>set (nonblank_lines text). token_count l = shape1 g)
      \<and> cells g = map (values_of pf) (nonblank_lines text))
   \<and> ((\<exists>l\<in>set (nonblank_lines text). \<exists>l'\<in>set (nonblank_lines text). token_count l \<noteq> token_count l')
        \<longrightarrow> isl (parse_matrix pf text))"
proof (intro conjI impI)
  assume a: "parse_matrix pf text = Inr g"
  note p = parse_matrix_Inr [OF a]
  show "well_formed g" by (rule parse_matrix_well_formed(1) [OF a])
  show "1 \<le> shape0 g" by (rule parse_matrix_well_formed(2) [OF a])
  show "shape0 g = length (nonblank_lines text)" by (simp add: p(3))
  show "\<forall>l\<in>set (nonblank_lines text). token_count l = shape1 g"
    using p(2) by (simp add: p(3))
  show "cells g = map (values_of pf) (nonblank_lines text)" by (simp add: p(3))
next
  assume "\<exists>l\<in>set (nonblank_lines text). \<exists>l'\<in>set (nonblank_lines text). token_count l \<noteq> token_count l'"
  then show "isl (parse_matrix pf text)"
    using parse_matrix_ragged_rejected by blast
qed

theorem parse_matrix_rectangular_witness:
  "parse_matrix read_decimal ''1,2\<newline>3 4\<newline>5 6'' =
     Inr \<lparr>shape0 = 3, shape1 = 2, cells = [[1, 2], [3, 4], [5, 6]]\<rparr>
   \<and> well_formed \<lparr>shape0 = 3, shape1 = 2, cells = [[1, 2], [3, 4], [5, 6::real]]\<rparr>
   \<and> nonblank_lines ''1,2\<newline>3 4\<newline>5 6'' = [''1,2'', ''3 4'', ''5 6'']
   \<and> token_count ''1,2'' = 2 \<and> token_count ''3 4'' = 2 \<and> token_count ''5 6'' = 2
   \<and> token_count ''1 2 3'' \<noteq> token_count ''4''
   \<and> nonblank_lines ''1 2 3\<newline>4'' = [''1 2 3'', ''4'']
   \<and> isl (parse_matrix read_decimal ''1 2 3\<newline>4'')"
proof -
  have p: "parse_matrix read_decimal ''1,2\<newline>3 4\<newline>5 6'' =
     Inr \<lparr>shape0 = 3, shape1 = 2, cells = [[1, 2], [3, 4], [5, 6]]\<rparr>"
    by (simp add: parse_matrix_def np_array_def text_eval)
  have n: "nonblank_lines ''1 2 3\<newline>4'' = [''1 2 3'', ''4'']"
    by (simp add: text_eval)
  have t: "token_count ''1 2 3'' \<noteq> token_count ''4''"
    by (simp add: text_eval)
  have r: "\<exists>l\<in>set (nonblank_lines ''1 2 3\<newline>4''). \<exists>l'\<in>set (nonblank_lines ''1 2 3\<newline>4''). token_count l \<noteq> token_count l'"
    unfolding n by (rule bexI [where x = "''1 2 3''"], rule bexI [where x = "''4''"], rule t) simp_all
  note w = parse_matrix_rectangular [of read_decimal "''1,2\<newline>3 4\<newline>5 6''"
      "\<lparr>shape0 = 3, shape1 = 2, cells = [[1, 2], [3, 4], [5, 6]]\<rparr>", THEN conjunct1, rule_format, OF p]
  note v = parse_matrix_rectangular [of read_decimal "''1 2 3\<newline>4''" undefined, THEN conjunct2, rule_format, OF r]
  show ?thesis
    using p n t w v by (simp add: text_eval)
qed

text \<open>
  The claim as written promises at least one column. A line that holds only a comma has no
  token, and the parser returns an array with one row and no column.
\<close>

theorem parse_matrix_zero_columns_counterexample:
  "parse_matrix read_decimal '','' = Inr \<lparr>shape0 = 1, shape1 = 0, cells = [[]]\<rparr>"
  by (simp add: parse_matrix_def np_array_def text_eval)

section \<open>Writing an array and reading it back\<close>

lemma linebreak_is_space: "is_linebreak c \<Longrightarrow> is_space c"
  by (auto simp: is_linebreak_def is_space_def)

lemma split_word_space:
  assumes "w \<noteq> []" "\<forall>c\<in>set w. \<not> is_space c" "is_space s"
  shows "split (w @ s # rest) = w # split rest"
  using assms
proof (induction w)
  case Nil
  then show ?case by simp
next
  case (Cons c w)
  show ?case
  proof (cases w)
    case Nil
    then show ?thesis using Cons.prems by simp
  next
    case (Cons d w')
    then have "split (w @ s # rest) = w # split rest"
      using Cons.IH Cons.prems by simp
    then show ?thesis using Cons Cons.prems by simp
  qed
qed

lemma split_word:
  assumes "w \<noteq> []" "\<forall>c\<in>set w. \<not> is_space c"
  shows "split w = [w]"
  using assms
proof (induction w)
  case Nil
  then show ?case by simp
next
  case (Cons c w)
  show ?case
  proof (cases w)
    case Nil
    then show ?thesis using Cons.prems by simp
  next
    case (Cons d w')
    then have "split w = [w]" using Cons.IH Cons.prems by simp
    then show ?thesis using Cons Cons.prems by simp
  qed
qed

lemma split_join:
  assumes "\<forall>w\<in>set ws. w \<noteq> [] \<and> (\<forall>c\<in>set w. \<not> is_space c)"
  shows "split (join '' '' ws) = ws"
  using assms
proof (induction "'' ''" ws rule: join.induct)
  case 1
  show ?case by simp
next
  case (2 x)
  then show ?case by (simp add: split_word)
next
  case (3 x y ys)
  have sp: "is_space CHR '' ''" by (simp add: is_space_def)
  have "split (x @ CHR '' '' # join '' '' (y # ys)) = x # split (join '' '' (y # ys))"
    using 3(2) sp by (intro split_word_space) simp_all
  then show ?case using 3 by simp
qed

lemma set_join_subset: "set (join sep ws) \<subseteq> set sep \<union> \<Union> (set ` set ws)"
  by (induction sep ws rule: join.induct) auto

lemma replace_id: "old \<notin> set s \<Longrightarrow> replace old new s = s"
  by (induction s) (auto simp: replace_def)

lemma hd_join: "w \<noteq> [] \<Longrightarrow> hd (join sep (w # ws)) = hd w"
  by (cases ws) simp_all

lemma last_join:
  "ws \<noteq> [] \<Longrightarrow> last ws \<noteq> [] \<Longrightarrow>
     join sep ws \<noteq> [] \<and> last (join sep ws) = last (last ws)"
  by (induction sep ws rule: join.induct) simp_all

lemma dropWhile_hd: "xs \<noteq> [] \<Longrightarrow> \<not> P (hd xs) \<Longrightarrow> dropWhile P xs = xs"
  by (cases xs) simp_all

lemma strip_id:
  assumes "s \<noteq> []" "\<not> is_space (hd s)" "\<not> is_space (last s)"
  shows "strip s = s"
proof -
  have 1: "dropWhile is_space s = s" using assms by (simp add: dropWhile_hd)
  have "rev s \<noteq> []" "\<not> is_space (hd (rev s))" using assms by (simp_all add: hd_rev)
  then have 2: "dropWhile is_space (rev s) = rev s" by (rule dropWhile_hd)
  show ?thesis by (simp add: strip_def 1 2)
qed

lemma splitlines_line_lf:
  assumes "\<forall>c\<in>set l. \<not> is_linebreak c"
  shows "splitlines (l @ CHR 0x0A # rest) = l # splitlines rest"
  using assms
proof (induction l)
  case Nil
  show ?case by (simp add: is_linebreak_def)
next
  case (Cons c l)
  then have "c \<noteq> CHR 0x0D" by (auto simp: is_linebreak_def)
  then show ?case using Cons by simp
qed

lemma splitlines_line:
  assumes "l \<noteq> []" "\<forall>c\<in>set l. \<not> is_linebreak c"
  shows "splitlines l = [l]"
  using assms
proof (induction l)
  case Nil
  then show ?case by simp
next
  case (Cons c l)
  then have c: "c \<noteq> CHR 0x0D" "\<not> is_linebreak c" by (auto simp: is_linebreak_def)
  show ?case
  proof (cases l)
    case Nil
    then show ?thesis using c by simp
  next
    case (Cons d l')
    then have "splitlines l = [l]" using Cons.IH Cons.prems by simp
    then show ?thesis using c by simp
  qed
qed

lemma splitlines_join:
  assumes "\<forall>l\<in>set ls. l \<noteq> [] \<and> (\<forall>c\<in>set l. \<not> is_linebreak c)"
  shows "splitlines (join [CHR 0x0A] ls) = ls"
  using assms
proof (induction "[CHR 0x0A]" ls rule: join.induct)
  case 1
  show ?case by simp
next
  case (2 x)
  then show ?case by (simp add: splitlines_line)
next
  case (3 x y ys)
  have "splitlines (x @ CHR 0x0A # join [CHR 0x0A] (y # ys)) = x # splitlines (join [CHR 0x0A] (y # ys))"
    using 3(2) by (intro splitlines_line_lf) simp
  then show ?case using 3 by simp
qed

lemma plain_line:
  assumes "ws \<noteq> []" "\<forall>w\<in>set ws. plain_token w"
  shows "join '' '' ws \<noteq> []"
    and "\<not> is_space (hd (join '' '' ws))"
    and "\<not> is_space (last (join '' '' ws))"
    and "\<forall>c\<in>set (join '' '' ws). \<not> is_linebreak c"
    and "parts (join '' '' ws) = ws"
proof -
  obtain w ws' where ws: "ws = w # ws'" using assms(1) by (cases ws) auto
  have pl: "\<And>v. v \<in> set ws \<Longrightarrow> v \<noteq> [] \<and> (\<forall>c\<in>set v. \<not> is_space c \<and> c \<noteq> CHR '','')"
    using assms(2) by (simp add: plain_token_def list_all_iff)
  have w: "w \<noteq> []" "\<not> is_space (hd w)" using pl [of w] ws by auto
  have lw: "last ws \<noteq> []" "\<not> is_space (last (last ws))"
    using pl [of "last ws"] assms(1) by auto
  show ne: "join '' '' ws \<noteq> []"
    using last_join [OF assms(1) lw(1)] by simp
  show "\<not> is_space (hd (join '' '' ws))"
    using w by (simp add: ws hd_join)
  show "\<not> is_space (last (join '' '' ws))"
    using last_join [OF assms(1) lw(1), of "'' ''"] lw(2) by simp
  have sub: "set (join '' '' ws) \<subseteq> set '' '' \<union> \<Union> (set ` set ws)"
    by (rule set_join_subset)
  show "\<forall>c\<in>set (join '' '' ws). \<not> is_linebreak c"
  proof
    fix c assume "c \<in> set (join '' '' ws)"
    with sub have "c = CHR '' '' \<or> (\<exists>v\<in>set ws. c \<in> set v)" by auto
    then show "\<not> is_linebreak c"
    proof
      assume "c = CHR '' ''"
      then show ?thesis by (simp add: is_linebreak_def)
    next
      assume "\<exists>v\<in>set ws. c \<in> set v"
      then have "\<not> is_space c" using pl by blast
      then show ?thesis using linebreak_is_space by blast
    qed
  qed
  have nc: "CHR '','' \<notin> set (join '' '' ws)"
  proof
    assume "CHR '','' \<in> set (join '' '' ws)"
    with sub have "\<exists>v\<in>set ws. CHR '','' \<in> set v" by auto
    then show False using pl by blast
  qed
  have sp: "split (join '' '' ws) = ws"
    using pl by (intro split_join) blast
  have "filter (\<lambda>p. p \<noteq> []) ws = ws"
    using pl by (intro filter_True) blast
  then show "parts (join '' '' ws) = ws"
    by (simp add: parts_def replace_id [OF nc] sp)
qed

lemma nonblank_lines_join:
  assumes "ls \<noteq> []"
    and "\<forall>l\<in>set ls. l \<noteq> [] \<and> \<not> is_space (hd l) \<and> \<not> is_space (last l) \<and> (\<forall>c\<in>set l. \<not> is_linebreak c)"
  shows "nonblank_lines (join [CHR 0x0A] ls) = ls"
proof -
  let ?t = "join [CHR 0x0A] ls"
  obtain l ls' where ls: "ls = l # ls'" using assms(1) by (cases ls) auto
  have p: "\<And>v. v \<in> set ls \<Longrightarrow> v \<noteq> [] \<and> \<not> is_space (hd v) \<and> \<not> is_space (last v) \<and> (\<forall>c\<in>set v. \<not> is_linebreak c)"
    using assms(2) by blast
  have l: "l \<noteq> []" "\<not> is_space (hd l)" using p [of l] ls by auto
  have ll: "last ls \<noteq> []" "\<not> is_space (last (last ls))" using p [of "last ls"] assms(1) by auto
  have t: "?t \<noteq> []" "last ?t = last (last ls)"
    using last_join [OF assms(1) ll(1), of "[CHR 0x0A]"] by simp_all
  have h: "hd ?t = hd l" using l by (simp add: ls hd_join)
  have st: "strip ?t = ?t"
    using t l ll by (intro strip_id) (simp_all add: h)
  have sl: "splitlines ?t = ls"
    using p by (intro splitlines_join) blast
  have ms: "map strip ls = ls"
    using p by (intro map_idI strip_id) blast+
  have fl: "filter (\<lambda>l. l \<noteq> []) ls = ls"
    using p by (intro filter_True) blast
  show ?thesis
    by (simp add: nonblank_lines_def st sl ms fl)
qed

lemma those_map_roundtrip:
  assumes "\<forall>x\<in>set r. pyfloat (pystr x) = Some x"
  shows "those (map pyfloat (map pystr r)) = Some r"
  using assms by (induction r) simp_all

lemma parse_rows_roundtrip:
  assumes "\<forall>r\<in>set rows. r \<noteq> [] \<and> (\<forall>x\<in>set r. plain_token (pystr x) \<and> pyfloat (pystr x) = Some x)"
  shows "parse_rows pyfloat (map (\<lambda>r. join '' '' (map pystr r)) rows) = Inr rows"
  using assms
proof (induction rows)
  case Nil
  show ?case by simp
next
  case (Cons r rows)
  have "parts (join '' '' (map pystr r)) = map pystr r"
    using Cons.prems by (intro plain_line(5)) simp_all
  moreover have "those (map pyfloat (map pystr r)) = Some r"
    using Cons.prems by (intro those_map_roundtrip) simp
  moreover have "parse_rows pyfloat (map (\<lambda>r. join '' '' (map pystr r)) rows) = Inr rows"
    using Cons by simp
  ultimately show ?case by simp
qed

lemma roundtrip_rows:
  assumes "rows \<noteq> []"
    and "\<forall>r\<in>set rows. r \<noteq> [] \<and> length r = n \<and> (\<forall>x\<in>set r. plain_token (pystr x) \<and> pyfloat (pystr x) = Some x)"
  shows "parse_matrix pyfloat (join [CHR 0x0A] (map (\<lambda>r. join '' '' (map pystr r)) rows)) =
           Inr \<lparr>shape0 = length rows, shape1 = n, cells = rows\<rparr>"
proof -
  let ?ls = "map (\<lambda>r. join '' '' (map pystr r)) rows"
  have ne: "?ls \<noteq> []" using assms(1) by simp
  have good: "\<forall>l\<in>set ?ls. l \<noteq> [] \<and> \<not> is_space (hd l) \<and> \<not> is_space (last l) \<and> (\<forall>c\<in>set l. \<not> is_linebreak c)"
  proof
    fix l assume "l \<in> set ?ls"
    then obtain r where r: "r \<in> set rows" "l = join '' '' (map pystr r)" by auto
    have "map pystr r \<noteq> []" "\<forall>w\<in>set (map pystr r). plain_token w"
      using assms(2) r(1) by auto
    from plain_line(1-4) [OF this] show "l \<noteq> [] \<and> \<not> is_space (hd l) \<and> \<not> is_space (last l) \<and> (\<forall>c\<in>set l. \<not> is_linebreak c)"
      unfolding r(2) by blast
  qed
  have nl: "nonblank_lines (join [CHR 0x0A] ?ls) = ?ls"
    by (rule nonblank_lines_join [OF ne good])
  have pr: "parse_rows pyfloat ?ls = Inr rows"
    using assms(2) by (intro parse_rows_roundtrip) blast
  obtain r rs where rows: "rows = r # rs" using assms(1) by (cases rows) auto
  have alln: "\<forall>x\<in>set (map length rows). x = n" using assms(2) by auto
  have "hd (map length rows) = n" using assms(2) by (simp add: rows)
  with alln have allhd: "\<forall>x\<in>set (map length rows). x = hd (map length rows)" by simp
  have ne2: "map length rows \<noteq> []" using assms(1) by simp
  have rd: "length (remdups (map length rows)) = 1"
    using remdups_single [OF ne2] allhd by blast
  have "length r = n" using assms(2) by (simp add: rows)
  then have arr: "np_array rows = \<lparr>shape0 = length rows, shape1 = n, cells = rows\<rparr>"
    by (simp add: np_array_def rows)
  show ?thesis
    using ne by (simp add: parse_matrix_def nl pr rd arr)
qed


text \<open>
  Claim C3. Let \<open>g\<close> be a valid grid: its rows agree with its shape, and it has at least
  one row and one column. Let \<open>str\<close> write every number of \<open>g\<close> as a token without
  whitespace or comma that \<open>float\<close> reads back as the same number; this is the formatting
  precision the claim speaks of. Then parsing the text of \<open>g\<close> succeeds and returns \<open>g\<close>.
\<close>

theorem parse_matrix_to_text_roundtrip:
  assumes "well_formed g" and "1 \<le> shape0 g" and "1 \<le> shape1 g"
    and "\<forall>x\<in>set (concat (cells g)). plain_token (pystr x) \<and> pyfloat (pystr x) = Some x"
  shows "parse_matrix pyfloat (matrix_to_text pystr g) = Inr g"
proof -
  have len: "length (cells g) = shape0 g" and row: "\<forall>r\<in>set (cells g). length r = shape1 g"
    using assms(1) by (simp_all add: well_formed_def list_all_iff)
  have ne: "cells g \<noteq> []" using len assms(2) by auto
  have rows: "\<forall>r\<in>set (cells g). r \<noteq> [] \<and> length r = shape1 g
                \<and> (\<forall>x\<in>set r. plain_token (pystr x) \<and> pyfloat (pystr x) = Some x)"
  proof
    fix r assume r: "r \<in> set (cells g)"
    then have "length r = shape1 g" using row by blast
    moreover from this have "r \<noteq> []" using assms(3) by auto
    moreover have "\<forall>x\<in>set r. plain_token (pystr x) \<and> pyfloat (pystr x) = Some x"
      using assms(4) r by auto
    ultimately show "r \<noteq> [] \<and> length r = shape1 g
                \<and> (\<forall>x\<in>set r. plain_token (pystr x) \<and> pyfloat (pystr x) = Some x)"
      by blast
  qed
  have "parse_matrix pyfloat (matrix_to_text pystr g) =
          Inr \<lparr>shape0 = length (cells g), shape1 = shape1 g, cells = cells g\<rparr>"
    unfolding matrix_to_text_def by (rule roundtrip_rows [OF ne rows])
  then show ?thesis by (simp add: len)
qed

theorem parse_matrix_to_text_roundtrip_witness:
  "well_formed \<lparr>shape0 = 2, shape1 = 2, cells = [[1, 2], [3, 40::real]]\<rparr>
   \<and> matrix_to_text (float_str no_repr) \<lparr>shape0 = 2, shape1 = 2, cells = [[1, 2], [3, 40]]\<rparr>
       = ''1.0 2.0\<newline>3.0 40.0''
   \<and> parse_matrix read_decimal
         (matrix_to_text (float_str no_repr) \<lparr>shape0 = 2, shape1 = 2, cells = [[1, 2], [3, 40]]\<rparr>)
       = Inr \<lparr>shape0 = 2, shape1 = 2, cells = [[1, 2], [3, 40]]\<rparr>"
proof -
  let ?g = "\<lparr>shape0 = 2, shape1 = 2, cells = [[1, 2], [3, 40::real]]\<rparr>"
  have w: "well_formed ?g" by (simp add: well_formed_def)
  have s: "float_str no_repr 1 = ''1.0''" "float_str no_repr 2 = ''2.0''"
    "float_str no_repr 3 = ''3.0''" "float_str no_repr 40 = ''40.0''"
    by (simp_all add: float_str_def str_int_def str_nat.simps digit_char_def)
  have h: "\<forall>x\<in>set (concat (cells ?g)).
             plain_token (float_str no_repr x) \<and> read_decimal (float_str no_repr x) = Some x"
    by (simp add: s plain_token_def text_eval)
  have t: "matrix_to_text (float_str no_repr) ?g = ''1.0 2.0\<newline>3.0 40.0''"
    by (simp add: matrix_to_text_def s)
  show ?thesis
    using w t parse_matrix_to_text_roundtrip [OF w _ _ h] by simp
qed

section \<open>The binary operations\<close>

lemma sum_list_upt: "sum_list (map f [0..<n]) = (\<Sum>k<n. f k)"
  by (simp add: interv_sum_list_conv_sum_set_nat atLeast0LessThan)

lemma dot_shape: "shape (dot a b) = (shape0 a, shape1 b)"
  by (simp add: dot_def shape_def)

lemma dot_well_formed: "well_formed (dot a b)"
  by (simp add: dot_def well_formed_def list_all_iff)

lemma dot_cell:
  "i < shape0 a \<Longrightarrow> j < shape1 b \<Longrightarrow>
     cells (dot a b) ! i ! j = (\<Sum>k<shape1 a. cells a ! i ! k * cells b ! k ! j)"
  by (simp add: dot_def sum_list_upt)

text \<open>
  Claim C4. Multiply with an operand absent fails with \<open>MissingOperand\<close>. With both
  present it fails with \<open>InnerDimMismatch\<close> when the column count of A differs from the
  row count of B, and otherwise shows the matrix product: an array of shape rows of A by
  columns of B whose cell \<open>(i, j)\<close> is the sum over \<open>k\<close> of \<open>A[i][k] * B[k][j]\<close>. A 2 by 3 and a
  3 by 2 operand give a 2 by 2 result; a 2 by 3 and a 2 by 2 operand give
  \<open>InnerDimMismatch\<close>.
\<close>

theorem mul_outcome:
  "(get_matrices pf st = Inr (oa, ob) \<and> (oa = None \<or> ob = None) \<longrightarrow> mul pf st = Inl MissingOperand)
   \<and> (get_matrices pf st = Inr (Some a, Some b) \<longrightarrow>
        (shape1 a \<noteq> shape0 b \<longrightarrow> mul pf st = Inl InnerDimMismatch)
      \<and> (shape1 a = shape0 b \<longrightarrow>
            mul pf st = Inr (Matrix (dot a b))
          \<and> shape (dot a b) = (shape0 a, shape1 b)
          \<and> well_formed (dot a b)
          \<and> (\<forall>i<shape0 a. \<forall>j<shape1 b.
                cells (dot a b) ! i ! j = (\<Sum>k<shape1 a. cells a ! i ! k * cells b ! k ! j)))
      \<and> (shape a = (2, 3) \<and> shape b = (3, 2) \<longrightarrow>
            mul pf st = Inr (Matrix (dot a b)) \<and> shape (dot a b) = (2, 2))
      \<and> (shape a = (2, 3) \<and> shape b = (2, 2) \<longrightarrow> mul pf st = Inl InnerDimMismatch))"
proof (intro conjI impI allI)
  assume "get_matrices pf st = Inr (oa, ob) \<and> (oa = None \<or> ob = None)"
  then show "mul pf st = Inl MissingOperand"
    by (cases oa) (auto simp: mul_def)
next
  assume "get_matrices pf st = Inr (Some a, Some b)" "shape1 a \<noteq> shape0 b"
  then show "mul pf st = Inl InnerDimMismatch" by (simp add: mul_def)
next
  assume "get_matrices pf st = Inr (Some a, Some b)" "shape1 a = shape0 b"
  then show "mul pf st = Inr (Matrix (dot a b))" by (simp add: mul_def)
next
  show "shape (dot a b) = (shape0 a, shape1 b)" by (rule dot_shape)
next
  show "well_formed (dot a b)" by (rule dot_well_formed)
next
  fix i j assume "i < shape0 a" "j < shape1 b"
  then show "cells (dot a b) ! i ! j = (\<Sum>k<shape1 a. cells a ! i ! k * cells b ! k ! j)"
    by (rule dot_cell)
next
  assume "get_matrices pf st = Inr (Some a, Some b)" "shape a = (2, 3) \<and> shape b = (3, 2)"
  then show "mul pf st = Inr (Matrix (dot a b))" by (simp add: mul_def shape_def)
next
  assume "shape a = (2, 3) \<and> shape b = (3, 2)"
  then show "shape (dot a b) = (2, 2)" by (simp add: dot_def shape_def)
next
  assume "get_matrices pf st = Inr (Some a, Some b)" "shape a = (2, 3) \<and> shape b = (2, 2)"
  then show "mul pf st = Inl InnerDimMismatch" by (simp add: mul_def shape_def)
qed

lemma get_matrices_2x3_3x2:
  "get_matrices read_decimal (app_with ''1 2 3\<newline>4 5 6\<newline>'' ''1 2\<newline>3 4\<newline>5 6\<newline>'' ''A'') =
     Inr (Some \<lparr>shape0 = 2, shape1 = 3, cells = [[1, 2, 3], [4, 5, 6]]\<rparr>,
          Some \<lparr>shape0 = 3, shape1 = 2, cells = [[1, 2], [3, 4], [5, 6]]\<rparr>)"
  by (simp add: app_with_def get_matrices_def parse_matrix_def np_array_def text_eval)

lemma get_matrices_2x3_2x2:
  "get_matrices read_decimal (app_with ''1 2 3\<newline>4 5 6\<newline>'' ''1 2\<newline>3 4\<newline>'' ''A'') =
     Inr (Some \<lparr>shape0 = 2, shape1 = 3, cells = [[1, 2, 3], [4, 5, 6]]\<rparr>,
          Some \<lparr>shape0 = 2, shape1 = 2, cells = [[1, 2], [3, 4]]\<rparr>)"
  by (simp add: app_with_def get_matrices_def parse_matrix_def np_array_def text_eval)

lemma get_matrices_2x3_blank:
  "get_matrices read_decimal (app_with ''1 2 3\<newline>4 5 6\<newline>'' ''\<newline>'' ''A'') =
     Inr (Some \<lparr>shape0 = 2, shape1 = 3, cells = [[1, 2, 3], [4, 5, 6]]\<rparr>, None)"
  by (simp add: app_with_def get_matrices_def parse_matrix_def np_array_def text_eval)

theorem mul_outcome_witness:
  "mul read_decimal (app_with ''1 2 3\<newline>4 5 6\<newline>'' ''1 2\<newline>3 4\<newline>5 6\<newline>'' ''A'') =
     Inr (Matrix \<lparr>shape0 = 2, shape1 = 2, cells = [[22, 28], [49, 64]]\<rparr>)
   \<and> mul read_decimal (app_with ''1 2 3\<newline>4 5 6\<newline>'' ''1 2\<newline>3 4\<newline>'' ''A'') = Inl InnerDimMismatch
   \<and> mul read_decimal (app_with ''1 2 3\<newline>4 5 6\<newline>'' ''\<newline>'' ''A'') = Inl MissingOperand"
proof -
  let ?a = "\<lparr>shape0 = 2, shape1 = 3, cells = [[1, 2, 3], [4, 5, 6::real]]\<rparr>"
  let ?b = "\<lparr>shape0 = 3, shape1 = 2, cells = [[1, 2], [3, 4], [5, 6::real]]\<rparr>"
  have d: "dot ?a ?b = \<lparr>shape0 = 2, shape1 = 2, cells = [[22, 28], [49, 64]]\<rparr>"
    by (simp add: dot_def upt_conv_Cons)
  have s: "(\<Sum>k<3. cells ?a ! 0 ! k * cells ?b ! k ! 1) = 28"
    by (simp add: lessThan_nat_numeral lessThan_Suc)
  show ?thesis
    using mul_outcome [of read_decimal _ "Some ?a" "Some ?b" ?a ?b, THEN conjunct2, rule_format,
        OF get_matrices_2x3_3x2]
      mul_outcome [of read_decimal _ "Some ?a" "Some \<lparr>shape0 = 2, shape1 = 2, cells = [[1, 2], [3, 4]]\<rparr>" ?a
        "\<lparr>shape0 = 2, shape1 = 2, cells = [[1, 2], [3, 4]]\<rparr>", THEN conjunct2, rule_format,
        OF get_matrices_2x3_2x2]
      mul_outcome [of read_decimal _ "Some ?a" None, THEN conjunct1, rule_format,
        OF conjI, OF get_matrices_2x3_blank]
    by (simp add: d s shape_def)
qed


lemma np_add_cell:
  "i < shape0 a \<Longrightarrow> j < shape1 a \<Longrightarrow> cells (np_add a b) ! i ! j = cells a ! i ! j + cells b ! i ! j"
  by (simp add: np_add_def)

lemma np_sub_cell:
  "i < shape0 a \<Longrightarrow> j < shape1 a \<Longrightarrow> cells (np_sub a b) ! i ! j = cells a ! i ! j - cells b ! i ! j"
  by (simp add: np_sub_def)

text \<open>
  Claim C5. Add and Subtract with an operand absent fail with \<open>MissingOperand\<close>. With both
  present they fail with \<open>ShapeMismatch\<close> whenever the shapes differ, as for 2 by 3 against
  3 by 2; when the shapes are equal, Add shows the array of the cell-by-cell sums and
  Subtract the array of the cell-by-cell differences, each of the operands' shape.
\<close>

theorem add_sub_outcome:
  "(get_matrices pf st = Inr (oa, ob) \<and> (oa = None \<or> ob = None) \<longrightarrow>
      add pf st = Inl MissingOperand \<and> sub pf st = Inl MissingOperand)
   \<and> (get_matrices pf st = Inr (Some a, Some b) \<longrightarrow>
        (shape a \<noteq> shape b \<longrightarrow> add pf st = Inl ShapeMismatch \<and> sub pf st = Inl ShapeMismatch)
      \<and> (shape a = (2, 3) \<and> shape b = (3, 2) \<longrightarrow>
            add pf st = Inl ShapeMismatch \<and> sub pf st = Inl ShapeMismatch)
      \<and> (shape a = shape b \<longrightarrow>
            add pf st = Inr (Matrix (np_add a b)) \<and> sub pf st = Inr (Matrix (np_sub a b))
          \<and> shape (np_add a b) = shape a \<and> shape (np_sub a b) = shape a
          \<and> well_formed (np_add a b) \<and> well_formed (np_sub a b)
          \<and> (\<forall>i<shape0 a. \<forall>j<shape1 a.
                cells (np_add a b) ! i ! j = cells a ! i ! j + cells b ! i ! j
              \<and> cells (np_sub a b) ! i ! j = cells a ! i ! j - cells b ! i ! j)))"
proof (intro conjI impI allI)
  assume h: "get_matrices pf st = Inr (oa, ob) \<and> (oa = None \<or> ob = None)"
  then show "add pf st = Inl MissingOperand" by (cases oa) (auto simp: add_def)
  from h show "sub pf st = Inl MissingOperand" by (cases oa) (auto simp: sub_def)
next
  assume h: "get_matrices pf st = Inr (Some a, Some b)" "shape a \<noteq> shape b"
  then show "add pf st = Inl ShapeMismatch" by (simp add: add_def)
  from h show "sub pf st = Inl ShapeMismatch" by (simp add: sub_def)
next
  assume h: "get_matrices pf st = Inr (Some a, Some b)" "shape a = (2, 3) \<and> shape b = (3, 2)"
  then show "add pf st = Inl ShapeMismatch" by (simp add: add_def)
  from h show "sub pf st = Inl ShapeMismatch" by (simp add: sub_def)
next
  assume h: "get_matrices pf st = Inr (Some a, Some b)" "shape a = shape b"
  then show "add pf st = Inr (Matrix (np_add a b))" by (simp add: add_def)
  from h show "sub pf st = Inr (Matrix (np_sub a b))" by (simp add: sub_def)
next
  show "shape (np_add a b) = shape a" by (simp add: np_add_def shape_def)
  show "shape (np_sub a b) = shape a" by (simp add: np_sub_def shape_def)
  show "well_formed (np_add a b)" by (simp add: np_add_def well_formed_def list_all_iff)
  show "well_formed (np_sub a b)" by (simp add: np_sub_def well_formed_def list_all_iff)
next
  fix i j assume "i < shape0 a" "j < shape1 a"
  then show "cells (np_add a b) ! i ! j = cells a ! i ! j + cells b ! i ! j"
    by (rule np_add_cell)
next
  fix i j assume "i < shape0 a" "j < shape1 a"
  then show "cells (np_sub a b) ! i ! j = cells a ! i ! j - cells b ! i ! j"
    by (rule np_sub_cell)
qed

lemma get_matrices_3x3:
  "get_matrices read_decimal
     (app_with ''1 2 3\<newline>4 5 6\<newline>7 8 9\<newline>'' ''9 8 7\<newline>6 5 4\<newline>3 2 1\<newline>'' ''A'') =
     Inr (Some \<lparr>shape0 = 3, shape1 = 3, cells = [[1, 2, 3], [4, 5, 6], [7, 8, 9]]\<rparr>,
          Some \<lparr>shape0 = 3, shape1 = 3, cells = [[9, 8, 7], [6, 5, 4], [3, 2, 1]]\<rparr>)"
  by (simp add: app_with_def get_matrices_def parse_matrix_def np_array_def text_eval)

theorem add_sub_outcome_witness:
  "add read_decimal (app_with ''1 2 3\<newline>4 5 6\<newline>7 8 9\<newline>'' ''9 8 7\<newline>6 5 4\<newline>3 2 1\<newline>'' ''A'') =
     Inr (Matrix \<lparr>shape0 = 3, shape1 = 3, cells = [[10, 10, 10], [10, 10, 10], [10, 10, 10]]\<rparr>)
   \<and> sub read_decimal (app_with ''1 2 3\<newline>4 5 6\<newline>7 8 9\<newline>'' ''9 8 7\<newline>6 5 4\<newline>3 2 1\<newline>'' ''A'') =
     Inr (Matrix \<lparr>shape0 = 3, shape1 = 3, cells = [[- 8, - 6, - 4], [- 2, 0, 2], [4, 6, 8]]\<rparr>)
   \<and> add read_decimal (app_with ''1 2 3\<newline>4 5 6\<newline>'' ''1 2\<newline>3 4\<newline>5 6\<newline>'' ''A'') = Inl ShapeMismatch
   \<and> sub read_decimal (app_with ''1 2 3\<newline>4 5 6\<newline>'' ''1 2\<newline>3 4\<newline>5 6\<newline>'' ''A'') = Inl ShapeMismatch
   \<and> add read_decimal (app_with ''1 2 3\<newline>4 5 6\<newline>'' ''\<newline>'' ''A'') = Inl MissingOperand
   \<and> sub read_decimal (app_with ''1 2 3\<newline>4 5 6\<newline>'' ''\<newline>'' ''A'') = Inl MissingOperand"
proof -
  let ?a = "\<lparr>shape0 = 3, shape1 = 3, cells = [[1, 2, 3], [4, 5, 6], [7, 8, 9::real]]\<rparr>"
  let ?b = "\<lparr>shape0 = 3, shape1 = 3, cells = [[9, 8, 7], [6, 5, 4], [3, 2, 1::real]]\<rparr>"
  let ?c = "\<lparr>shape0 = 2, shape1 = 3, cells = [[1, 2, 3], [4, 5, 6::real]]\<rparr>"
  let ?d = "\<lparr>shape0 = 3, shape1 = 2, cells = [[1, 2], [3, 4], [5, 6::real]]\<rparr>"
  have s: "np_add ?a ?b = \<lparr>shape0 = 3, shape1 = 3, cells = [[10, 10, 10], [10, 10, 10], [10, 10, 10]]\<rparr>"
    by (simp add: np_add_def upt_conv_Cons)
  have d: "np_sub ?a ?b = \<lparr>shape0 = 3, shape1 = 3, cells = [[- 8, - 6, - 4], [- 2, 0, 2], [4, 6, 8]]\<rparr>"
    by (simp add: np_sub_def upt_conv_Cons)
  show ?thesis
    using add_sub_outcome [of read_decimal _ "Some ?a" "Some ?b" ?a ?b, THEN conjunct2, rule_format,
        OF get_matrices_3x3]
      add_sub_outcome [of read_decimal _ "Some ?c" "Some ?d" ?c ?d, THEN conjunct2, rule_format,
        OF get_matrices_2x3_3x2]
      add_sub_outcome [of read_decimal _ "Some ?c" None, THEN conjunct1, rule_format,
        OF conjI, OF get_matrices_2x3_blank]
    by (simp add: s d shape_def)
qed

section \<open>The unary operations\<close>









section \<open>Both text areas are parsed first\<close>

lemma strip_hd_not_space:
  assumes "strip s \<noteq> []"
  shows "\<not> is_space (hd (strip s))"
proof -
  let ?u = "dropWhile is_space s"
  have u: "?u \<noteq> []"
  proof
    assume e: "?u = []"
    have "strip s = rev (dropWhile is_space (rev ?u))" by (simp only: strip_def)
    also have "\<dots> = []" by (simp only: e rev.simps dropWhile.simps)
    finally show False using assms by simp
  qed
  then have hu: "\<not> is_space (hd ?u)" by (rule hd_dropWhile)
  have "rev ?u = takeWhile is_space (rev ?u) @ dropWhile is_space (rev ?u)" by simp
  then have "?u = rev (dropWhile is_space (rev ?u)) @ rev (takeWhile is_space (rev ?u))"
    by (metis rev_append rev_rev_ident)
  then have "?u = strip s @ rev (takeWhile is_space (rev ?u))" by (simp add: strip_def)
  then have "hd ?u = hd (strip s)" using assms by (metis hd_append2)
  with hu show ?thesis by simp
qed

lemma splitlines_first:
  assumes "\<not> is_space c"
  shows "\<exists>l ls. splitlines (c # cs) = (c # l) # ls"
proof -
  have "\<not> is_linebreak c" using assms linebreak_is_space by blast
  moreover have "c \<noteq> CHR 0x0D" using assms by (auto simp: is_space_def)
  ultimately show ?thesis by (cases "splitlines cs") simp_all
qed

lemma strip_Cons_not_space:
  assumes "\<not> is_space c"
  shows "strip (c # l) \<noteq> []"
proof -
  have "dropWhile is_space (rev l @ [c]) \<noteq> []"
    using assms by (simp add: dropWhile_eq_Nil_conv)
  then show ?thesis using assms by (simp add: strip_def)
qed

lemma nonblank_lines_not_empty:
  assumes "strip s \<noteq> []"
  shows "nonblank_lines s \<noteq> []"
proof -
  obtain c cs where t: "strip s = c # cs" using assms by (cases "strip s") auto
  have c: "\<not> is_space c" using strip_hd_not_space [OF assms] by (simp add: t)
  obtain l ls where sl: "splitlines (strip s) = (c # l) # ls"
    using splitlines_first [OF c, of cs] by (auto simp: t)
  have "strip (c # l) \<noteq> []" by (rule strip_Cons_not_space [OF c])
  then show ?thesis by (simp add: nonblank_lines_def sl)
qed

lemma parse_matrix_not_EmptyInput:
  assumes "strip s \<noteq> []"
  shows "parse_matrix pf s \<noteq> Inl EmptyInput"
proof -
  have ne: "nonblank_lines s \<noteq> []" by (rule nonblank_lines_not_empty [OF assms])
  show ?thesis
  proof (cases "find (has_bad_token pf) (nonblank_lines s)")
    case (Some l)
    then show ?thesis by (simp add: parse_matrix_bad [OF ne Some])
  next
    case None
    show ?thesis
    proof (cases "\<exists>l\<in>set (nonblank_lines s). token_count l \<noteq> token_count (hd (nonblank_lines s))")
      case True
      then show ?thesis by (simp add: parse_matrix_ragged [OF ne None True])
    next
      case False
      then show ?thesis by (simp add: parse_matrix_ok [OF ne None False])
    qed
  qed
qed

lemma get_matrices_a_error:
  assumes "strip (a_txt st) \<noteq> []" "parse_matrix pf (a_txt st) = Inl e"
  shows "get_matrices pf st = Inl e"
  using assms by (simp add: get_matrices_def)

lemma get_matrices_b_error:
  assumes "strip (b_txt st) \<noteq> []" "parse_matrix pf (b_txt st) = Inl e"
    and "strip (a_txt st) = [] \<or> \<not> isl (parse_matrix pf (a_txt st))"
  shows "get_matrices pf st = Inl e"
proof (cases "strip (a_txt st) = []")
  case True
  then show ?thesis using assms(1,2) by (simp add: get_matrices_def)
next
  case False
  then obtain m where "parse_matrix pf (a_txt st) = Inr m"
    using assms(3) by (cases "parse_matrix pf (a_txt st)") auto
  then show ?thesis using assms(1,2) False by (simp add: get_matrices_def)
qed

lemma get_matrices_blank:
  "get_matrices pf st = Inr (oa, ob) \<Longrightarrow>
     (strip (a_txt st) = [] \<longrightarrow> oa = None) \<and> (strip (b_txt st) = [] \<longrightarrow> ob = None)"
  by (auto simp: get_matrices_def split: sum.splits if_splits)

text \<open>
  Claim C10, as the code has it. Transpose and Determinant parse both text areas, A first,
  before they look at the selector. Whatever the selector: when the text of A is not blank
  and does not parse, the operation fails with the parse error of A; when the text of A is
  blank or parses, and the text of B is not blank and does not parse, the operation fails
  with the parse error of B. Such an error is never \<open>EmptyInput\<close>. A blank text area gives
  an absent operand, not a parse error.
\<close>

theorem unary_parses_both:
  "(strip (a_txt st) \<noteq> [] \<and> parse_matrix pf (a_txt st) = Inl e \<longrightarrow>
      transpose_op pf st = Inl e \<and> determinant ld pf st = Inl e \<and> e \<noteq> EmptyInput)
   \<and> (strip (b_txt st) \<noteq> [] \<and> parse_matrix pf (b_txt st) = Inl e
        \<and> (strip (a_txt st) = [] \<or> \<not> isl (parse_matrix pf (a_txt st))) \<longrightarrow>
      transpose_op pf st = Inl e \<and> determinant ld pf st = Inl e \<and> e \<noteq> EmptyInput)
   \<and> (get_matrices pf st = Inr (oa, ob) \<longrightarrow>
        (strip (a_txt st) = [] \<longrightarrow> oa = None) \<and> (strip (b_txt st) = [] \<longrightarrow> ob = None))"
proof (intro conjI impI)
  assume h: "strip (a_txt st) \<noteq> [] \<and> parse_matrix pf (a_txt st) = Inl e"
  then have g: "get_matrices pf st = Inl e" by (simp add: get_matrices_a_error)
  show "transpose_op pf st = Inl e" by (simp add: transpose_op_def g)
  show "determinant ld pf st = Inl e" by (simp add: determinant_def g)
  show "e \<noteq> EmptyInput" using h parse_matrix_not_EmptyInput [of "a_txt st" pf] by auto
next
  assume h: "strip (b_txt st) \<noteq> [] \<and> parse_matrix pf (b_txt st) = Inl e
        \<and> (strip (a_txt st) = [] \<or> \<not> isl (parse_matrix pf (a_txt st)))"
  then have g: "get_matrices pf st = Inl e" by (simp add: get_matrices_b_error)
  show "transpose_op pf st = Inl e" by (simp add: transpose_op_def g)
  show "determinant ld pf st = Inl e" by (simp add: determinant_def g)
  show "e \<noteq> EmptyInput" using h parse_matrix_not_EmptyInput [of "b_txt st" pf] by auto
next
  assume g: "get_matrices pf st = Inr (oa, ob)"
  show "strip (a_txt st) = [] \<Longrightarrow> oa = None" using get_matrices_blank [OF g] by simp
  show "strip (b_txt st) = [] \<Longrightarrow> ob = None" using get_matrices_blank [OF g] by simp
qed


theorem unary_parses_both_witness:
  "transpose_op read_decimal (app_with ''1 x\<newline>'' ''1 2\<newline>'' ''B'') = Inl (NonNumericToken ''1 x'')
   \<and> determinant (linalg_det_doc no_det) read_decimal (app_with ''1 x\<newline>'' ''1 2\<newline>'' ''B'') = Inl (NonNumericToken ''1 x'')
   \<and> transpose_op read_decimal (app_with ''\<newline>'' ''1 2\<newline>3\<newline>'' ''A'') = Inl RaggedRows
   \<and> determinant (linalg_det_doc no_det) read_decimal (app_with ''\<newline>'' ''1 2\<newline>3\<newline>'' ''A'') = Inl RaggedRows
   \<and> transpose_op read_decimal (app_with ''1 2\<newline>'' ''1 two\<newline>'' ''A'') = Inl (NonNumericToken ''1 two'')
   \<and> determinant (linalg_det_doc no_det) read_decimal (app_with ''1 2\<newline>'' ''1 two\<newline>'' ''A'') = Inl (NonNumericToken ''1 two'')
   \<and> get_matrices read_decimal (app_with ''\<newline>'' ''\<newline>'' ''A'') = Inr (None, None)"
proof -
  let ?s1 = "app_with ''1 x\<newline>'' ''1 2\<newline>'' ''B'' :: real app"
  let ?s2 = "app_with ''\<newline>'' ''1 2\<newline>3\<newline>'' ''A'' :: real app"
  let ?s3 = "app_with ''1 2\<newline>'' ''1 two\<newline>'' ''A'' :: real app"
  let ?s4 = "app_with ''\<newline>'' ''\<newline>'' ''A'' :: real app"
  have h1: "strip (a_txt ?s1) \<noteq> [] \<and> parse_matrix read_decimal (a_txt ?s1) = Inl (NonNumericToken ''1 x'')"
    by (simp add: app_with_def parse_matrix_def text_eval)
  have h2: "strip (b_txt ?s2) \<noteq> [] \<and> parse_matrix read_decimal (b_txt ?s2) = Inl RaggedRows
        \<and> (strip (a_txt ?s2) = [] \<or> \<not> isl (parse_matrix read_decimal (a_txt ?s2)))"
    by (simp add: app_with_def parse_matrix_def text_eval)
  have h3: "strip (b_txt ?s3) \<noteq> [] \<and> parse_matrix read_decimal (b_txt ?s3) = Inl (NonNumericToken ''1 two'')
        \<and> (strip (a_txt ?s3) = [] \<or> \<not> isl (parse_matrix read_decimal (a_txt ?s3)))"
    by (simp add: app_with_def parse_matrix_def text_eval)
  have h4: "get_matrices read_decimal ?s4 = Inr (None, None)"
    by (simp add: app_with_def get_matrices_def text_eval)
  have b4: "strip (a_txt ?s4) = []" "strip (b_txt ?s4) = []"
    by (simp_all add: app_with_def text_eval)
  note 1 = unary_parses_both [where st = ?s1 and pf = read_decimal and ld = "linalg_det_doc no_det",
      THEN conjunct1, rule_format, OF h1]
  note 2 = unary_parses_both [where st = ?s2 and pf = read_decimal and ld = "linalg_det_doc no_det",
      THEN conjunct2, THEN conjunct1, rule_format, OF h2]
  note 3 = unary_parses_both [where st = ?s3 and pf = read_decimal and ld = "linalg_det_doc no_det",
      THEN conjunct2, THEN conjunct1, rule_format, OF h3]
  note 4 = unary_parses_both [where st = ?s4 and pf = read_decimal and ld = "linalg_det_doc no_det"
        and oa = None and ob = None,
      THEN conjunct2, THEN conjunct2, rule_format, OF h4]
  show ?thesis
    using 1 2 3 4 h4 b4 by simp
qed

text \<open>
  The claim as written lets the parse error of the other matrix win whenever that matrix
  does not parse. With the selector on A, a text of A that does not parse is reported
  first: here A fails with a non-numeric token and B has ragged rows.
\<close>

theorem unary_other_error_counterexample:
  "strip ''1 2\<newline>3\<newline>'' \<noteq> []
   \<and> parse_matrix read_decimal ''1 2\<newline>3\<newline>'' = Inl RaggedRows
   \<and> transpose_op read_decimal (app_with ''x\<newline>'' ''1 2\<newline>3\<newline>'' ''A'') = Inl (NonNumericToken ''x'')
   \<and> determinant (linalg_det_doc no_det) read_decimal (app_with ''x\<newline>'' ''1 2\<newline>3\<newline>'' ''A'') = Inl (NonNumericToken ''x'')"
  by (simp add: transpose_op_def determinant_def get_matrices_def app_with_def parse_matrix_def text_eval)

section \<open>The formatter\<close>








lemmas fmt_eval =
  fmt_def fmt_6g_def py_round_def str_int_def exp10_def exp10_up.simps exp10_down.simps
  str_nat.simps digit_char_def frac_digits_def Let_def



section \<open>The determinant\<close>






section \<open>Copying the result\<close>

text \<open>
  Claim C9, as the code has it. Copying does nothing when there is no result. Copying a
  grid puts on the clipboard its rows joined by line feeds, the values of a row joined by
  one space, each value written by \<open>str\<close>; copying a scalar puts \<open>str\<close> of the scalar.
  The result itself and the text areas are left as they are.
\<close>

theorem copy_result_outcome:
  "(current_result st = None \<longrightarrow> copy_result pystr st = st)
   \<and> (current_result st = Some (Matrix m) \<longrightarrow>
        clipboard (copy_result pystr st) =
          Some (join [CHR 0x0A] (map (\<lambda>r. join '' '' (map pystr r)) (cells m))))
   \<and> (current_result st = Some (Scalar v) \<longrightarrow> clipboard (copy_result pystr st) = Some (pystr v))
   \<and> current_result (copy_result pystr st) = current_result st
   \<and> a_txt (copy_result pystr st) = a_txt st
   \<and> b_txt (copy_result pystr st) = b_txt st"
  by (cases "current_result st"; cases "the (current_result st)")
     (simp_all add: copy_result_def matrix_to_text_def)

lemma float_str_whole:
  "float_str other 10 = ''10.0''" "float_str other 20 = ''20.0''" "float_str other (- 2) = ''-2.0''"
  by (simp_all add: float_str_def str_int_def str_nat.simps digit_char_def)

theorem copy_result_outcome_witness:
  "copy_result (float_str no_repr) (app_with [] [] ''A'') = app_with [] [] ''A''
   \<and> clipboard (copy_result (float_str no_repr)
        ((app_with [] [] ''A'')
           \<lparr>current_result := Some (Matrix \<lparr>shape0 = 2, shape1 = 2, cells = [[10, 20], [20, 10]]\<rparr>)\<rparr>))
       = Some ''10.0 20.0\<newline>20.0 10.0''
   \<and> clipboard (copy_result (float_str no_repr)
        ((app_with [] [] ''A'')\<lparr>current_result := Some (Scalar (- 2))\<rparr>))
       = Some ''-2.0''"
proof -
  let ?m = "\<lparr>shape0 = 2, shape1 = 2, cells = [[10, 20], [20, 10::real]]\<rparr>"
  let ?s0 = "app_with [] [] ''A'' :: real app"
  have 0: "current_result ?s0 = None" by (simp add: app_with_def)
  have 1: "current_result (?s0\<lparr>current_result := Some (Matrix ?m)\<rparr>) = Some (Matrix ?m)" by simp
  have 2: "current_result (?s0\<lparr>current_result := Some (Scalar (- 2))\<rparr>) = Some (Scalar (- 2))" by simp
  note a = copy_result_outcome [of ?s0 "float_str no_repr", THEN conjunct1, rule_format, OF 0]
  note b = copy_result_outcome [of "?s0\<lparr>current_result := Some (Matrix ?m)\<rparr>" "float_str no_repr" ?m,
      THEN conjunct2, THEN conjunct1, rule_format, OF 1]
  note c = copy_result_outcome [of "?s0\<lparr>current_result := Some (Scalar (- 2))\<rparr>" "float_str no_repr" _ "- 2",
      THEN conjunct2, THEN conjunct2, THEN conjunct1, rule_format, OF 2]
  show ?thesis
    using a b c by (simp add: float_str_whole)
qed

text \<open>
  The claim as written has every copied value rendered by the formatter of the display.
  The sum of the two example matrices holds tens: the display shows \<open>10\<close>, the clipboard
  gets \<open>10.0\<close>. A determinant of \<open>-2\<close> is shown as \<open>-2\<close> and copied as \<open>-2.0\<close>.
\<close>

theorem copy_result_formatter_counterexample:
  "clipboard (copy_result (float_str no_repr)
      ((app_with [] [] ''A'')
         \<lparr>current_result := Some (Matrix \<lparr>shape0 = 1, shape1 = 2, cells = [[10, 10]]\<rparr>)\<rparr>))
     = Some ''10.0 10.0''
   \<and> matrix_to_text fmt \<lparr>shape0 = 1, shape1 = 2, cells = [[10, 10]]\<rparr> = ''10 10''
   \<and> clipboard (copy_result (float_str no_repr)
      ((app_with [] [] ''A'')\<lparr>current_result := Some (Scalar (- 2))\<rparr>)) = Some ''-2.0''
   \<and> fmt (- 2) = ''-2''"
  by (simp add: copy_result_def matrix_to_text_def float_str_whole fmt_eval)

section \<open>Six significant digits\<close>



















































end
